theory Spec2Isabelle
  imports Complex_Main "HOL-Library.Multiset"
begin

section \<open>Values held by the application\<close>

text \<open>
  \<^verbatim>\<open>App.tsx\<close> keeps its expenses in a React state cell typed \<^verbatim>\<open>Expense[]\<close>, but the
  cell is filled from \<^verbatim>\<open>JSON.parse\<close> (lines 24 and 90) without any check of the element
  shape, and TypeScript types are erased at run time. The store is therefore modelled as
  a list of JSON values. A property read that finds nothing yields \<^verbatim>\<open>undefined\<close>, which
  is \<open>None\<close> of \<open>json option\<close>.
\<close>

datatype json =
    JNull
  | JBool bool
  | JNum rat
  | JStr string
  | JArr "json list"
  | JObj "(string \<times> json) list"

datatype jsError = TypeError

text \<open>
  \<open>getProp v k\<close> is the read \<^verbatim>\<open>v.k\<close> on a value other than \<^verbatim>\<open>null\<close>, for the two names
  the source reads (\<^verbatim>\<open>id\<close> and \<^verbatim>\<open>date\<close>): an object yields its own property, every
  other value yields \<^verbatim>\<open>undefined\<close> since no built-in prototype defines these names.
  On \<^verbatim>\<open>null\<close> the read throws; the callers below test for \<open>JNull\<close> before reading.
  \<open>JObj\<close> lists each own property once, in creation order.
\<close>

fun getProp :: "json \<Rightarrow> string \<Rightarrow> json option" where
  "getProp (JObj kvs) k = map_of kvs k"
| "getProp _ k = None"

definition idOf :: "json \<Rightarrow> json option" where
  "idOf e = getProp e ''id''"

definition dateOf :: "json \<Rightarrow> json option" where
  "dateOf e = getProp e ''date''"

text \<open>
  \<^verbatim>\<open>new Date(x).getTime()\<close>. The engine's reading of a defined value \<open>x\<close> as a time
  value (milliseconds, an integer) is the parameter \<open>getTime\<close>; \<open>None\<close> is \<^verbatim>\<open>NaN\<close>
  (an invalid date). \<^verbatim>\<open>new Date(undefined)\<close> is always invalid.
\<close>

definition timeOf :: "(json \<Rightarrow> int option) \<Rightarrow> json \<Rightarrow> int option" where
  "timeOf getTime e = (case dateOf e of None \<Rightarrow> None | Some d \<Rightarrow> getTime d)"

text \<open>
  The subtraction of two time values; \<^verbatim>\<open>NaN\<close> if either is. Time values are integers of
  magnitude at most 8.64e15, so the sign of the floating-point difference is the sign of
  the exact one.
\<close>

definition subtractTimes :: "int option \<Rightarrow> int option \<Rightarrow> int option" where
  "subtractTimes tb ta =
     (case tb of None \<Rightarrow> None
      | Some x \<Rightarrow> (case ta of None \<Rightarrow> None | Some y \<Rightarrow> Some (x - y)))"

text \<open>The comparator of lines 83 and 96:
  \<^verbatim>\<open>(a, b) => new Date(b.date).getTime() - new Date(a.date).getTime()\<close>.\<close>

definition compareByDate :: "(json \<Rightarrow> int option) \<Rightarrow> json \<Rightarrow> json \<Rightarrow> int option" where
  "compareByDate getTime a b = subtractTimes (timeOf getTime b) (timeOf getTime a)"

text \<open>
  \<^verbatim>\<open>Array.prototype.sort\<close> with a comparator. The sort is stable and reads a \<^verbatim>\<open>NaN\<close>
  result as \<open>0\<close>. It is modelled as insertion from the right: an element moves behind
  exactly the elements it compares greater than. For a consistent comparator every stable
  sort returns this list; where some date is invalid the comparator is not consistent
  and ECMAScript leaves the order to the engine, so the theorems that speak about the
  order assume that the dates are valid.
\<close>

definition comesAfter :: "('a \<Rightarrow> 'a \<Rightarrow> int option) \<Rightarrow> 'a \<Rightarrow> 'a \<Rightarrow> bool" where
  "comesAfter cmp x y = (case cmp x y of None \<Rightarrow> False | Some v \<Rightarrow> 0 < v)"

fun insertSorted :: "('a \<Rightarrow> 'a \<Rightarrow> int option) \<Rightarrow> 'a \<Rightarrow> 'a list \<Rightarrow> 'a list" where
  "insertSorted cmp x [] = [x]"
| "insertSorted cmp x (y # ys) =
     (if comesAfter cmp x y then y # insertSorted cmp x ys else x # y # ys)"

definition arraySort :: "('a \<Rightarrow> 'a \<Rightarrow> int option) \<Rightarrow> 'a list \<Rightarrow> 'a list" where
  "arraySort cmp xs = foldr (insertSorted cmp) xs []"

text \<open>
  \<^verbatim>\<open>new Set(...)\<close> and \<^verbatim>\<open>has\<close> compare with SameValueZero: primitives by value,
  objects and arrays by reference. The values tested in \<^verbatim>\<open>handleImportData\<close> come from
  a fresh \<^verbatim>\<open>JSON.parse\<close>, so an object or array among them is never the same reference
  as one in the store.
\<close>

fun isReference :: "json option \<Rightarrow> bool" where
  "isReference (Some (JArr _)) = True"
| "isReference (Some (JObj _)) = True"
| "isReference _ = False"

definition setHas :: "json option list \<Rightarrow> json option \<Rightarrow> bool" where
  "setHas members v = (v \<in> set members \<and> \<not> isReference v)"

subsection \<open>Decimal text of a number\<close>

definition digitChar :: "nat \<Rightarrow> char" where
  "digitChar d = ''0123456789'' ! d"

fun natToString :: "nat \<Rightarrow> string" where
  "natToString n =
     (if n < 10 then [digitChar n] else natToString (n div 10) @ [digitChar (n mod 10)])"

declare natToString.simps [simp del]

section \<open>Typed records of the draft flow\<close>

text \<open>
  \<^verbatim>\<open>types.ts\<close> is not part of the sources. The records follow section 3 of the
  specification and the object literals of lines 11, 77 to 81 and 119 to 124:
  \<^verbatim>\<open>ExpenseDraft\<close> has date, item, amount and category; the argument of
  \<^verbatim>\<open>handleSaveExpense\<close> is \<^verbatim>\<open>ExpenseDraft & { payer: UserID }\<close>; an \<^verbatim>\<open>Expense\<close> adds
  \<^verbatim>\<open>id\<close> and \<^verbatim>\<open>createdAt\<close>. Amounts are the specification's decimals, exact
  rationals here. A category is the run-time string of its enumeration member.
\<close>

datatype UserID = A | B

record ExpenseDraft =
  date :: string
  item :: string
  amount :: rat
  category :: string

record FinalData = ExpenseDraft +
  payer :: UserID

record Expense = FinalData +
  ident :: string
  createdAt :: nat

text \<open>
  The object that an \<^verbatim>\<open>Expense\<close> is at run time. The run-time values of the members of
  \<^verbatim>\<open>UserID\<close> are not in the sources; the member names stand for them.
\<close>

definition userIdJson :: "UserID \<Rightarrow> json" where
  "userIdJson p = (case p of A \<Rightarrow> JStr ''A'' | B \<Rightarrow> JStr ''B'')"

definition expenseJson :: "Expense \<Rightarrow> json" where
  "expenseJson e =
     JObj [(''id'', JStr (ident e)),
           (''date'', JStr (date e)),
           (''item'', JStr (item e)),
           (''amount'', JNum (amount e)),
           (''category'', JStr (category e)),
           (''payer'', userIdJson (payer e)),
           (''createdAt'', JNum (of_nat (createdAt e)))]"

section \<open>Application state\<close>

text \<open>
  The state cells of \<^verbatim>\<open>App\<close> (lines 22 to 35) that the handlers below write, and the
  messages shown with \<^verbatim>\<open>alert\<close>, oldest first. \<^verbatim>\<open>draftExpense\<close> is \<open>None\<close> for
  \<^verbatim>\<open>null\<close>.
\<close>

record AppState =
  expenses :: "json list"
  isAnalyzing :: bool
  draftExpense :: "ExpenseDraft option"
  isModalOpen :: bool
  alerts :: "string list"

definition alert :: "string \<Rightarrow> AppState \<Rightarrow> AppState" where
  "alert msg st = st\<lparr>alerts := alerts st @ [msg]\<rparr>"

definition importedMessage :: "nat \<Rightarrow> string" where
  "importedMessage n = ''Successfully imported '' @ natToString n @ '' new expenses.''"

definition invalidFormatMessage :: string where
  "invalidFormatMessage = ''Invalid data format.''"

definition parseFailedMessage :: string where
  "parseFailedMessage = ''Failed to parse data. Make sure the code is correct.''"

subsection \<open>Import (lines 88 to 104)\<close>

text \<open>
  \<open>JSON_parse\<close> is the engine's parser, \<open>None\<close> when it throws. Inside the \<^verbatim>\<open>try\<close>
  block the reads \<^verbatim>\<open>e.id\<close> of lines 93 and 94 throw a TypeError on a \<^verbatim>\<open>null\<close> element
  of the store or of the parsed array; the \<^verbatim>\<open>catch\<close> of line 101 then shows the parse
  failure message and \<^verbatim>\<open>setExpenses\<close> is never reached. \<^verbatim>\<open>expenses\<close> (line 93) and
  \<^verbatim>\<open>prev\<close> (line 96) are the same list: the handler runs once per event.
\<close>

text \<open>\<^verbatim>\<open>Array.isArray\<close> on a parsed value.\<close>

fun isArray :: "json \<Rightarrow> bool" where
  "isArray (JArr _) = True"
| "isArray _ = False"

definition handleImportData ::
  "(string \<Rightarrow> json option) \<Rightarrow> (json \<Rightarrow> int option) \<Rightarrow> AppState \<Rightarrow> string \<Rightarrow> AppState" where
  "handleImportData JSON_parse getTime st jsonString =
     (case JSON_parse jsonString of
        None \<Rightarrow> alert parseFailedMessage st
      | Some importedData \<Rightarrow>
          (case importedData of
             JArr items \<Rightarrow>
               if JNull \<in> set (expenses st) \<or> JNull \<in> set items
               then alert parseFailedMessage st
               else
                 let currentIds = map idOf (expenses st);
                     newItems = filter (\<lambda>e. \<not> setHas currentIds (idOf e)) items
                 in alert (importedMessage (length newItems))
                      (st\<lparr>expenses :=
                         arraySort (compareByDate getTime) (newItems @ expenses st)\<rparr>)
           | _ \<Rightarrow> alert invalidFormatMessage st))"

subsection \<open>Expense-shaped records\<close>

text \<open>
  What the store operations read of an \<^verbatim>\<open>Expense\<close> (\<^verbatim>\<open>types.ts\<close> is not part of the
  sources; the shape is that of section 3 of the specification): an object whose
  \<^verbatim>\<open>id\<close> is a string and whose \<^verbatim>\<open>date\<close> is a string that denotes a date.
\<close>

fun isString :: "json option \<Rightarrow> bool" where
  "isString (Some (JStr _)) = True"
| "isString _ = False"

definition isExpense :: "(json \<Rightarrow> int option) \<Rightarrow> json \<Rightarrow> bool" where
  "isExpense getTime e =
     (isString (idOf e) \<and> isString (dateOf e) \<and> timeOf getTime e \<noteq> None)"

text \<open>The identifiers of a collection are pairwise distinct.\<close>

definition distinctIds :: "json list \<Rightarrow> bool" where
  "distinctIds xs = distinct (map idOf xs)"

text \<open>Descending by date: every element's time value is at least that of each later one.\<close>

definition timeNotEarlier :: "int option \<Rightarrow> int option \<Rightarrow> bool" where
  "timeNotEarlier ta tb =
     (case ta of
        None \<Rightarrow> False
      | Some x \<Rightarrow> (case tb of None \<Rightarrow> False | Some y \<Rightarrow> y \<le> x))"

definition notEarlier :: "(json \<Rightarrow> int option) \<Rightarrow> json \<Rightarrow> json \<Rightarrow> bool" where
  "notEarlier getTime a b = timeNotEarlier (timeOf getTime a) (timeOf getTime b)"

definition sortedByDateDesc :: "(json \<Rightarrow> int option) \<Rightarrow> json list \<Rightarrow> bool" where
  "sortedByDateDesc getTime xs = sorted_wrt (notEarlier getTime) xs"

text \<open>The same for a list of date keys, as line 116 sorts them.\<close>

definition datesDescending :: "(json \<Rightarrow> int option) \<Rightarrow> string list \<Rightarrow> bool" where
  "datesDescending getTime ds =
     sorted_wrt (\<lambda>a b. timeNotEarlier (getTime (JStr a)) (getTime (JStr b))) ds"

subsection \<open>Save (lines 76 to 86)\<close>

text \<open>
  \<open>nowId\<close> and \<open>nowCreated\<close> are the two readings of \<^verbatim>\<open>Date.now()\<close> (lines 78 and 80).
  The updater of line 83 sorts \<^verbatim>\<open>[newExpense, ...prev]\<close>; with a \<^verbatim>\<open>null\<close> in
  \<^verbatim>\<open>prev\<close> the comparator's read of \<^verbatim>\<open>.date\<close> throws, and nothing catches it.
\<close>

definition newExpenseOf :: "nat \<Rightarrow> nat \<Rightarrow> FinalData \<Rightarrow> Expense" where
  "newExpenseOf nowId nowCreated finalData =
     \<lparr>date = date finalData, item = item finalData, amount = amount finalData,
      category = category finalData, payer = payer finalData,
      ident = natToString nowId, createdAt = nowCreated\<rparr>"

definition handleSaveExpense ::
  "(json \<Rightarrow> int option) \<Rightarrow> nat \<Rightarrow> nat \<Rightarrow> AppState \<Rightarrow> FinalData \<Rightarrow> jsError + AppState" where
  "handleSaveExpense getTime nowId nowCreated st finalData =
     (let newExpense = expenseJson (newExpenseOf nowId nowCreated finalData)
      in if JNull \<in> set (expenses st) then Inl TypeError
         else Inr (st\<lparr>expenses :=
                       arraySort (compareByDate getTime) (newExpense # expenses st),
                     isModalOpen := False,
                     draftExpense := None\<rparr>))"

subsection \<open>Opening and closing the draft surface (lines 118 to 126 and 298)\<close>

text \<open>
  \<open>today\<close> is \<^verbatim>\<open>new Date().toISOString().split('T')[0]\<close> and \<open>other\<close> the run-time
  value of \<^verbatim>\<open>Category.OTHER\<close>.
\<close>

definition handleManualAdd :: "string \<Rightarrow> string \<Rightarrow> AppState \<Rightarrow> AppState" where
  "handleManualAdd today other st =
     st\<lparr>draftExpense := Some \<lparr>date = today, item = [], amount = 0, category = other\<rparr>,
        isModalOpen := True\<rparr>"

text \<open>The \<^verbatim>\<open>onClose\<close> of the edit modal, line 298: \<^verbatim>\<open>() => setIsModalOpen(false)\<close>.\<close>

definition onClose :: "AppState \<Rightarrow> AppState" where
  "onClose st = st\<lparr>isModalOpen := False\<rparr>"

subsection \<open>Receipt scan (lines 49 to 73)\<close>

text \<open>
  \<^verbatim>\<open>handleFileChange\<close> runs in two parts. The synchronous part sets the busy flag,
  installs \<^verbatim>\<open>reader.onloadend\<close> and starts the read inside \<^verbatim>\<open>try\<close>; \<open>startThrows\<close>
  tells whether that part throws, which is all the \<^verbatim>\<open>catch\<close> of line 65 can see.
  The callback runs later, after \<^verbatim>\<open>handleFileChange\<close> has returned: it awaits
  \<^verbatim>\<open>analyzeReceipt\<close>, whose outcome is a resolved draft or a rejection. A rejection
  ends the callback at line 59; its promise is rejected and no handler is attached.
\<close>

datatype 'a promise = Resolved 'a | Rejected

definition processFailedMessage :: string where
  "processFailedMessage = ''Failed to process image. Please try again.''"

definition handleFileChange :: "AppState \<Rightarrow> 'f option \<Rightarrow> bool \<Rightarrow> AppState" where
  "handleFileChange st file startThrows =
     (case file of
        None \<Rightarrow> st
      | Some f \<Rightarrow>
          let st1 = st\<lparr>isAnalyzing := True\<rparr>
          in if startThrows then alert processFailedMessage (st1\<lparr>isAnalyzing := False\<rparr>)
             else st1)"

definition onloadend :: "AppState \<Rightarrow> ExpenseDraft promise \<Rightarrow> AppState" where
  "onloadend st outcome =
     (case outcome of
        Resolved result \<Rightarrow>
          st\<lparr>draftExpense := Some result, isModalOpen := True, isAnalyzing := False\<rparr>
      | Rejected \<Rightarrow> st)"

text \<open>A scan whose read starts normally: the synchronous part, then the callback.\<close>

definition scanReceipt :: "AppState \<Rightarrow> 'f \<Rightarrow> ExpenseDraft promise \<Rightarrow> AppState" where
  "scanReceipt st f outcome = onloadend (handleFileChange st (Some f) False) outcome"

subsection \<open>Grouping for the list (lines 107 to 116, 198 and 208)\<close>

text \<open>
  \<^verbatim>\<open>groups[date]\<close> turns \<^verbatim>\<open>expense.date\<close> into a property key: a string is its own
  key, \<^verbatim>\<open>undefined\<close> is the key \<^verbatim>\<open>"undefined"\<close>, and the engine's text of any other
  value is the parameter \<open>toStr\<close>.
\<close>

fun propertyKey :: "(json \<Rightarrow> string) \<Rightarrow> json option \<Rightarrow> string" where
  "propertyKey toStr None = ''undefined''"
| "propertyKey toStr (Some (JStr s)) = s"
| "propertyKey toStr (Some v) = toStr v"

text \<open>
  \<^verbatim>\<open>groups\<close> starts as \<^verbatim>\<open>{}\<close>, which inherits from \<^verbatim>\<open>Object.prototype\<close>. For a key
  that names an inherited member the test \<^verbatim>\<open>!groups[date]\<close> of line 109 is false, so no
  bucket is created, and \<^verbatim>\<open>groups[date].push\<close> of line 112 is not a function.
\<close>

definition objectPrototypeNames :: "string list" where
  "objectPrototypeNames =
     [''constructor'', ''__proto__'', ''hasOwnProperty'', ''isPrototypeOf'',
      ''propertyIsEnumerable'', ''toLocaleString'', ''toString'', ''valueOf'',
      ''__defineGetter__'', ''__defineSetter__'', ''__lookupGetter__'',
      ''__lookupSetter__'']"

text \<open>Lines 109 to 112 on the own properties of \<^verbatim>\<open>groups\<close>, kept in creation order.\<close>

fun pushTo :: "string \<Rightarrow> json \<Rightarrow> (string \<times> json list) list \<Rightarrow> (string \<times> json list) list" where
  "pushTo k e [] = [(k, [e])]"
| "pushTo k e ((k', bucket) # groups) =
     (if k' = k then (k', bucket @ [e]) # groups else (k', bucket) # pushTo k e groups)"

definition groupedExpenses ::
  "(json \<Rightarrow> string) \<Rightarrow> json list \<Rightarrow> jsError + (string \<times> json list) list" where
  "groupedExpenses toStr xs =
     (if JNull \<in> set xs then Inl TypeError
      else if list_ex (\<lambda>e. propertyKey toStr (dateOf e) \<in> set objectPrototypeNames) xs
      then Inl TypeError
      else Inr (foldl (\<lambda>groups expense.
                   pushTo (propertyKey toStr (dateOf expense)) expense groups) [] xs))"

text \<open>
  \<^verbatim>\<open>Object.keys\<close> lists the keys that are array indices (canonical decimal text of a
  number below \<open>2^32 - 1\<close>) first, in ascending order, then the other keys in creation
  order.
\<close>

definition digitValue :: "char \<Rightarrow> nat option" where
  "digitValue c =
     map_of [(CHR ''0'', 0), (CHR ''1'', 1), (CHR ''2'', 2), (CHR ''3'', 3), (CHR ''4'', 4),
             (CHR ''5'', 5), (CHR ''6'', 6), (CHR ''7'', 7), (CHR ''8'', 8), (CHR ''9'', 9)] c"

fun digitsValue :: "nat \<Rightarrow> string \<Rightarrow> nat option" where
  "digitsValue acc [] = Some acc"
| "digitsValue acc (c # cs) =
     (case digitValue c of None \<Rightarrow> None | Some d \<Rightarrow> digitsValue (10 * acc + d) cs)"

definition arrayIndex :: "string \<Rightarrow> nat option" where
  "arrayIndex s =
     (if s = [] \<or> (hd s = CHR ''0'' \<and> s \<noteq> ''0'') then None
      else case digitsValue 0 s of
             None \<Rightarrow> None
           | Some n \<Rightarrow> if n < 4294967295 then Some n else None)"

definition objectKeys :: "(string \<times> 'v) list \<Rightarrow> string list" where
  "objectKeys groups =
     (let ks = map fst groups;
          indices = List.map_filter (\<lambda>k. map_option (\<lambda>n. (n, k)) (arrayIndex k)) ks
      in map snd (sort_key fst indices) @ filter (\<lambda>k. arrayIndex k = None) ks)"

text \<open>Line 116: the keys sorted by
  \<^verbatim>\<open>(a, b) => new Date(b).getTime() - new Date(a).getTime()\<close>.\<close>

definition sortedDates :: "(json \<Rightarrow> int option) \<Rightarrow> (string \<times> 'v) list \<Rightarrow> string list" where
  "sortedDates getTime groups =
     arraySort (\<lambda>a b. subtractTimes (getTime (JStr b)) (getTime (JStr a))) (objectKeys groups)"

text \<open>
  Lines 198 and 208: for each date of \<^verbatim>\<open>sortedDates\<close>, the rows of
  \<^verbatim>\<open>groupedExpenses[date]\<close> in bucket order. Reading a bucket that does not exist would
  throw.
\<close>

definition renderedRows :: "(string \<times> json list) list \<Rightarrow> string list \<Rightarrow> jsError + json list" where
  "renderedRows groups dates =
     (if list_all (\<lambda>d. map_of groups d \<noteq> None) dates
      then Inr (concat (map (\<lambda>d. case map_of groups d of Some bucket \<Rightarrow> bucket | None \<Rightarrow> []) dates))
      else Inl TypeError)"

definition expenseList ::
  "(json \<Rightarrow> string) \<Rightarrow> (json \<Rightarrow> int option) \<Rightarrow> json list \<Rightarrow> jsError + json list" where
  "expenseList toStr getTime xs =
     (case groupedExpenses toStr xs of
        Inl err \<Rightarrow> Inl err
      | Inr groups \<Rightarrow> renderedRows groups (sortedDates getTime groups))"

section \<open>Calendar dates\<close>

text \<open>
  The application writes its dates as \<^verbatim>\<open>YYYY-MM-DD\<close>
  (\<^verbatim>\<open>toISOString().split('T')[0]\<close>, lines 11 and 120). \<open>parseISODate\<close> reads that form
  and nothing else; \<open>isoGetTime\<close> is the time value \<^verbatim>\<open>new Date(s).getTime()\<close> of such
  a string, midnight UTC of that day in milliseconds. It serves as a concrete
  \<open>getTime\<close> where one is needed; the handlers take the engine's own as a parameter.
\<close>

definition isLeapYear :: "nat \<Rightarrow> bool" where
  "isLeapYear y = (y mod 4 = 0 \<and> (y mod 100 \<noteq> 0 \<or> y mod 400 = 0))"

definition daysInMonth :: "nat \<Rightarrow> nat \<Rightarrow> nat" where
  "daysInMonth y m =
     (if m = 2 then (if isLeapYear y then 29 else 28)
      else if m = 4 \<or> m = 6 \<or> m = 9 \<or> m = 11 then 30 else 31)"

fun parseISODate :: "string \<Rightarrow> (nat \<times> nat \<times> nat) option" where
  "parseISODate [y1, y2, y3, y4, s1, m1, m2, s2, d1, d2] =
     (if s1 = CHR ''-'' \<and> s2 = CHR ''-'' then
        (case digitsValue 0 [y1, y2, y3, y4] of
           None \<Rightarrow> None
         | Some y \<Rightarrow>
             (case digitsValue 0 [m1, m2] of
                None \<Rightarrow> None
              | Some m \<Rightarrow>
                  (case digitsValue 0 [d1, d2] of
                     None \<Rightarrow> None
                   | Some d \<Rightarrow>
                       if 1 \<le> m \<and> m \<le> 12 \<and> 1 \<le> d \<and> d \<le> daysInMonth y m
                       then Some (y, m, d) else None)))
      else None)"
| "parseISODate _ = None"

text \<open>Days from 1970-01-01 to the given day of the proleptic Gregorian calendar.\<close>

definition epochDay :: "nat \<Rightarrow> nat \<Rightarrow> nat \<Rightarrow> int" where
  "epochDay y m d =
     (let y' = (if m \<le> 2 then int y - 1 else int y);
          era = y' div 400;
          yoe = y' - era * 400;
          mp = (if m \<le> 2 then int m + 9 else int m - 3);
          doy = (153 * mp + 2) div 5 + int d - 1;
          doe = yoe * 365 + yoe div 4 - yoe div 100 + doy
      in era * 146097 + doe - 719468)"

fun isoGetTime :: "json \<Rightarrow> int option" where
  "isoGetTime (JStr s) =
     (case parseISODate s of
        None \<Rightarrow> None
      | Some (y, m, d) \<Rightarrow> Some (epochDay y m d * 86400000))"
| "isoGetTime _ = None"

section \<open>Balance Aggregator\<close>

text \<open>
  Modelled from the spec: the component \<^verbatim>\<open>SummaryHeader\<close> that computes the monthly
  summary (imported at line 4, used at lines 160 to 165) is not part of the sources.
  Section 4.2 of the specification: given the expense collection, a reference month and
  the two party identifiers, the total spent by each party within the reference month
  (calendar-month match on the date field) and the net balance
  \<^verbatim>\<open>(partyA total - partyB total) / 2\<close>. The collection is one of typed \<^verbatim>\<open>Expense\<close>
  records, a month is a pair of year and month number, and the totals are accumulated
  over the collection from zero.
\<close>

record Summary =
  totalA :: rat
  totalB :: rat
  balance :: rat

definition calendarMonth :: "string \<Rightarrow> (nat \<times> nat) option" where
  "calendarMonth s = (case parseISODate s of None \<Rightarrow> None | Some (y, m, d) \<Rightarrow> Some (y, m))"

definition inReferenceMonth :: "nat \<times> nat \<Rightarrow> Expense \<Rightarrow> bool" where
  "inReferenceMonth referenceMonth e = (calendarMonth (date e) = Some referenceMonth)"

definition partyTotal :: "nat \<times> nat \<Rightarrow> UserID \<Rightarrow> Expense list \<Rightarrow> rat" where
  "partyTotal referenceMonth party es =
     foldl (\<lambda>total e.
              if payer e = party \<and> inReferenceMonth referenceMonth e
              then total + amount e else total) 0 es"

definition balanceAggregator :: "Expense list \<Rightarrow> nat \<times> nat \<Rightarrow> UserID \<Rightarrow> UserID \<Rightarrow> Summary" where
  "balanceAggregator es referenceMonth partyA partyB =
     (let a = partyTotal referenceMonth partyA es;
          b = partyTotal referenceMonth partyB es
      in \<lparr>totalA = a, totalB = b, balance = (a - b) / 2\<rparr>)"

section \<open>Sample data\<close>

text \<open>
  Concrete inputs on which the theorems below are instantiated. The store is the one of
  the specification's scenario: two expenses of 2024-01-10, 100 paid by A and 50 by B.
\<close>

definition sampleExpense :: "string \<Rightarrow> string \<Rightarrow> rat \<Rightarrow> UserID \<Rightarrow> Expense" where
  "sampleExpense i d a p =
     \<lparr>date = d, item = ''Lunch'', amount = a, category = ''Food'', payer = p,
      ident = i, createdAt = 0\<rparr>"

definition sampleRecords :: "Expense list" where
  "sampleRecords =
     [sampleExpense ''1'' ''2024-01-10'' 100 A, sampleExpense ''2'' ''2024-01-10'' 50 B]"

definition sampleStore :: "json list" where
  "sampleStore = map expenseJson sampleRecords"

definition sampleCandidates :: "json list" where
  "sampleCandidates =
     map expenseJson
       [sampleExpense ''7'' ''2024-01-09'' 12 A,
        sampleExpense ''1'' ''2024-01-10'' 100 A,
        sampleExpense ''8'' ''2024-01-10'' 30 B,
        sampleExpense ''2'' ''2024-01-10'' 50 B,
        sampleExpense ''9'' ''2024-02-01'' 8 A]"

definition stateWith :: "json list \<Rightarrow> AppState" where
  "stateWith xs =
     \<lparr>expenses = xs, isAnalyzing = False, draftExpense = None, isModalOpen = False,
      alerts = []\<rparr>"

text \<open>A parser at an input text whose value is \<open>v\<close>.\<close>

definition parserGiving :: "json \<Rightarrow> string \<Rightarrow> json option" where
  "parserGiving v s = Some v"

definition sampleFinalData :: FinalData where
  "sampleFinalData =
     \<lparr>date = ''2024-01-12'', item = ''Taxi'', amount = 18, category = ''Transport'',
      payer = B\<rparr>"

text \<open>Two candidates that share an identifier the store does not hold.\<close>

definition sampleTwins :: "json list" where
  "sampleTwins =
     map expenseJson
       [sampleExpense ''7'' ''2024-01-09'' 12 A, sampleExpense ''7'' ''2024-01-11'' 5 B]"

text \<open>Two saves for which \<^verbatim>\<open>Date.now()\<close> reads the same millisecond.\<close>

definition saveTwice ::
  "(json \<Rightarrow> int option) \<Rightarrow> nat \<Rightarrow> AppState \<Rightarrow> FinalData \<Rightarrow> jsError + AppState" where
  "saveTwice getTime now st finalData =
     (case handleSaveExpense getTime now now st finalData of
        Inl err \<Rightarrow> Inl err
      | Inr st1 \<Rightarrow> handleSaveExpense getTime now now st1 finalData)"

text \<open>A parser at an input text it rejects.\<close>

definition parserFailing :: "string \<Rightarrow> json option" where
  "parserFailing s = None"

text \<open>The text of a plain object, as a concrete \<open>toStr\<close> where every date is a string.\<close>

definition objectText :: "json \<Rightarrow> string" where
  "objectText v = ''[object Object]''"

text \<open>The scenario store with one more expense, dated the day before the month starts.\<close>

definition sampleRecordsWithDecember :: "Expense list" where
  "sampleRecordsWithDecember = sampleExpense ''3'' ''2023-12-31'' 40 A # sampleRecords"

section \<open>The sort\<close>

lemma mset_insertSorted: "mset (insertSorted cmp x ys) = add_mset x (mset ys)"
  by (induction ys) auto

lemma mset_arraySort: "mset (arraySort cmp xs) = mset xs"
  by (induction xs) (auto simp: arraySort_def mset_insertSorted)

lemma set_arraySort: "set (arraySort cmp xs) = set xs"
  by (metis mset_arraySort set_mset_mset)

lemma length_arraySort: "length (arraySort cmp xs) = length xs"
  by (metis mset_arraySort size_mset)

lemma arraySort_Cons: "arraySort cmp (x # xs) = insertSorted cmp x (arraySort cmp xs)"
  by (simp add: arraySort_def)

lemma arraySort_Nil: "arraySort cmp [] = []"
  by (simp add: arraySort_def)

lemma set_insertSorted: "set (insertSorted cmp x ys) = insert x (set ys)"
  by (metis mset_insertSorted set_mset_add_mset_insert set_mset_mset)

lemma comesAfter_key:
  "comesAfter (\<lambda>a b. subtractTimes (k b) (k a)) x y =
     (\<exists>tx ty. k x = Some tx \<and> k y = Some ty \<and> tx < ty)"
  by (auto simp: comesAfter_def subtractTimes_def split: option.splits)

lemma timeNotEarlier_iff:
  "timeNotEarlier ta tb = (\<exists>x y. ta = Some x \<and> tb = Some y \<and> y \<le> x)"
  by (auto simp: timeNotEarlier_def split: option.splits)

lemma sorted_insertSorted_key:
  assumes "\<forall>e \<in> set (x # ys). k e \<noteq> None"
    and "sorted_wrt (\<lambda>a b. timeNotEarlier (k a) (k b)) ys"
  shows "sorted_wrt (\<lambda>a b. timeNotEarlier (k a) (k b))
           (insertSorted (\<lambda>a b. subtractTimes (k b) (k a)) x ys)"
  using assms
proof (induction ys)
  case Nil
  then show ?case by simp
next
  case (Cons y ys)
  show ?case
  proof (cases "comesAfter (\<lambda>a b. subtractTimes (k b) (k a)) x y")
    case True
    then have "timeNotEarlier (k y) (k x)"
      by (auto simp: comesAfter_key timeNotEarlier_iff)
    with Cons True show ?thesis
      by (auto simp: set_insertSorted)
  next
    case False
    with Cons.prems have xy: "timeNotEarlier (k x) (k y)"
      by (auto simp: comesAfter_key timeNotEarlier_iff)
    have "timeNotEarlier (k x) (k z)" if "z \<in> set ys" for z
      using xy Cons.prems(2) that by (fastforce simp: timeNotEarlier_iff)
    with xy False Cons.prems show ?thesis by auto
  qed
qed

lemma sorted_arraySort_key:
  "\<forall>e \<in> set xs. k e \<noteq> None \<Longrightarrow>
   sorted_wrt (\<lambda>a b. timeNotEarlier (k a) (k b))
     (arraySort (\<lambda>a b. subtractTimes (k b) (k a)) xs)"
proof (induction xs)
  case Nil
  then show ?case by (simp add: arraySort_Nil)
next
  case (Cons x xs)
  then show ?case
    by (simp add: arraySort_Cons sorted_insertSorted_key set_arraySort)
qed

lemma compareByDate_key:
  "compareByDate getTime = (\<lambda>a b. subtractTimes (timeOf getTime b) (timeOf getTime a))"
  by (simp add: fun_eq_iff compareByDate_def)

lemma notEarlier_key:
  "notEarlier getTime = (\<lambda>a b. timeNotEarlier (timeOf getTime a) (timeOf getTime b))"
  by (simp add: fun_eq_iff notEarlier_def)

lemma comesAfter_compareByDate:
  "comesAfter (compareByDate getTime) x y =
     (\<exists>tx ty. timeOf getTime x = Some tx \<and> timeOf getTime y = Some ty \<and> tx < ty)"
  by (simp add: compareByDate_key comesAfter_key)

lemma notEarlier_iff:
  "notEarlier getTime a b =
     (\<exists>ta tb. timeOf getTime a = Some ta \<and> timeOf getTime b = Some tb \<and> tb \<le> ta)"
  by (simp add: notEarlier_def timeNotEarlier_iff)

lemma sorted_arraySort:
  "\<forall>e \<in> set xs. timeOf getTime e \<noteq> None \<Longrightarrow>
   sortedByDateDesc getTime (arraySort (compareByDate getTime) xs)"
  unfolding sortedByDateDesc_def compareByDate_key notEarlier_key
  by (rule sorted_arraySort_key)

lemma filter_insertSorted:
  assumes "\<forall>y \<in> set ys. P x \<and> P y \<longrightarrow> \<not> comesAfter cmp x y"
  shows "filter P (insertSorted cmp x ys) = (if P x then x # filter P ys else filter P ys)"
  using assms by (induction ys) auto

lemma filter_arraySort:
  assumes "\<forall>x \<in> set xs. \<forall>y \<in> set xs. P x \<and> P y \<longrightarrow> \<not> comesAfter cmp x y"
  shows "filter P (arraySort cmp xs) = filter P xs"
  using assms
proof (induction xs)
  case Nil
  then show ?case by (simp add: arraySort_Nil)
next
  case (Cons x xs)
  then show ?case
    by (simp add: arraySort_Cons filter_insertSorted set_arraySort)
qed

section \<open>Expense-shaped values\<close>

lemma isString_iff: "isString v = (\<exists>s. v = Some (JStr s))"
  by (cases v rule: isString.cases) auto

lemma isExpense_notNull: "isExpense getTime e \<Longrightarrow> e \<noteq> JNull"
  by (auto simp: isExpense_def idOf_def)

lemma isExpense_id: "isExpense getTime e \<Longrightarrow> \<exists>i. idOf e = Some (JStr i)"
  by (simp add: isExpense_def isString_iff)

lemma isExpense_time: "isExpense getTime e \<Longrightarrow> timeOf getTime e \<noteq> None"
  by (simp add: isExpense_def)

lemma setHas_string: "isString v \<Longrightarrow> setHas ids v = (v \<in> set ids)"
  by (auto simp: setHas_def isString_iff)


section \<open>Import\<close>

lemma filter_setHas:
  assumes "list_all (isExpense getTime) cs"
  shows "filter (\<lambda>e. \<not> setHas ids (idOf e)) cs = filter (\<lambda>e. idOf e \<notin> set ids) cs"
  using assms by (induction cs) (auto simp: setHas_string isExpense_def)

lemma handleImportData_array:
  assumes "JSON_parse jsonString = Some (JArr candidates)"
    and "JNull \<notin> set (expenses st)" and "JNull \<notin> set candidates"
  shows "handleImportData JSON_parse getTime st jsonString =
           alert (importedMessage (length (filter (\<lambda>e. \<not> setHas (map idOf (expenses st)) (idOf e)) candidates)))
             (st\<lparr>expenses := arraySort (compareByDate getTime)
                 (filter (\<lambda>e. \<not> setHas (map idOf (expenses st)) (idOf e)) candidates @ expenses st)\<rparr>)"
  using assms by (simp add: handleImportData_def Let_def)

lemma list_all_notNull: "list_all (isExpense getTime) xs \<Longrightarrow> JNull \<notin> set xs"
  by (auto simp: list_all_iff dest: isExpense_notNull)

lemma length_filter_split:
  "length (filter P xs) + length (filter (\<lambda>x. \<not> P x) xs) = length xs"
  by (induction xs) auto

text \<open>
  Claim C1. On a text that parses to an array of expense-shaped candidates, with an
  expense-shaped store, \<^verbatim>\<open>handleImportData\<close> admits exactly the candidates whose
  identifier is not among the identifiers of the store: the new collection is the sort
  of the admitted candidates put before the old collection, it holds the admitted
  candidates and the old records and nothing else, it is in descending order of date,
  and the message reports the number of admitted candidates. When two of five
  candidates carry an identifier of the store, three are admitted, the message reports
  3 and the collection grows by 3.
\<close>

theorem importMerge_admits_unknown_ids:
  assumes "JSON_parse jsonString = Some (JArr candidates)"
    and "list_all (isExpense getTime) (expenses st)"
    and "list_all (isExpense getTime) candidates"
  shows "let currentIds = set (map idOf (expenses st));
             admitted = filter (\<lambda>e. idOf e \<notin> currentIds) candidates;
             st' = handleImportData JSON_parse getTime st jsonString
         in expenses st' = arraySort (compareByDate getTime) (admitted @ expenses st)
          \<and> mset (expenses st') = mset admitted + mset (expenses st)
          \<and> sortedByDateDesc getTime (expenses st')
          \<and> alerts st' = alerts st @ [importedMessage (length admitted)]
          \<and> length (expenses st') = length (expenses st) + length admitted
          \<and> (length candidates = 5
               \<and> length (filter (\<lambda>e. idOf e \<in> currentIds) candidates) = 2
             \<longrightarrow> length admitted = 3
               \<and> length (expenses st') = length (expenses st) + 3
               \<and> alerts st' = alerts st @ [importedMessage 3])"
proof -
  define admitted where "admitted = filter (\<lambda>e. idOf e \<notin> set (map idOf (expenses st))) candidates"
  define st' where "st' = handleImportData JSON_parse getTime st jsonString"
  have nn: "JNull \<notin> set (expenses st)" "JNull \<notin> set candidates"
    using assms(2,3) by (auto dest: list_all_notNull)
  have adm: "filter (\<lambda>e. \<not> setHas (map idOf (expenses st)) (idOf e)) candidates = admitted"
    unfolding admitted_def using assms(3) by (rule filter_setHas)
  have st': "st' = alert (importedMessage (length admitted))
      (st\<lparr>expenses := arraySort (compareByDate getTime) (admitted @ expenses st)\<rparr>)"
    unfolding st'_def using handleImportData_array[of JSON_parse jsonString candidates st getTime] assms(1) nn adm by simp
  have e: "expenses st' = arraySort (compareByDate getTime) (admitted @ expenses st)"
    by (simp add: st' alert_def)
  have a: "alerts st' = alerts st @ [importedMessage (length admitted)]"
    by (simp add: st' alert_def)
  have m: "mset (expenses st') = mset admitted + mset (expenses st)"
    by (simp add: e mset_arraySort)
  have l: "length (expenses st') = length (expenses st) + length admitted"
    by (simp add: e length_arraySort)
  have valid: "\<forall>x \<in> set (admitted @ expenses st). timeOf getTime x \<noteq> None"
    using assms(2,3) by (auto simp: admitted_def list_all_iff dest: isExpense_time)
  have s: "sortedByDateDesc getTime (expenses st')"
    unfolding e using valid by (rule sorted_arraySort)
  have c: "length admitted = 3"
    if "length candidates = 5"
      and "length (filter (\<lambda>e. idOf e \<in> set (map idOf (expenses st))) candidates) = 2"
    using that length_filter_split[of "\<lambda>e. idOf e \<in> set (map idOf (expenses st))" candidates]
    by (simp add: admitted_def)
  show ?thesis
    using e m s a l c unfolding Let_def admitted_def[symmetric] st'_def[symmetric]
    by simp
qed


text \<open>Unfolding the sample data and the calendar.\<close>

lemmas sample_defs = sampleStore_def sampleRecords_def sampleCandidates_def sampleExpense_def expenseJson_def
  stateWith_def parserGiving_def userIdJson_def
lemmas eval_defs = isExpense_def idOf_def dateOf_def timeOf_def epochDay_def digitValue_def
  daysInMonth_def isLeapYear_def

theorem importMerge_admits_unknown_ids_witness:
  "list_all (isExpense isoGetTime) (expenses (stateWith sampleStore))
   \<and> list_all (isExpense isoGetTime) sampleCandidates
   \<and> length sampleCandidates = 5
   \<and> length (filter (\<lambda>e. idOf e \<in> set (map idOf sampleStore)) sampleCandidates) = 2
   \<and> length (expenses (handleImportData (parserGiving (JArr sampleCandidates)) isoGetTime
         (stateWith sampleStore) ''five records'')) = length sampleStore + 3
   \<and> alerts (handleImportData (parserGiving (JArr sampleCandidates)) isoGetTime
         (stateWith sampleStore) ''five records'') = [''Successfully imported 3 new expenses.'']
   \<and> sortedByDateDesc isoGetTime (expenses (handleImportData
         (parserGiving (JArr sampleCandidates)) isoGetTime (stateWith sampleStore) ''five records''))"
proof -
  have p: "parserGiving (JArr sampleCandidates) ''five records'' = Some (JArr sampleCandidates)"
    by (simp add: parserGiving_def)
  have s: "list_all (isExpense isoGetTime) (expenses (stateWith sampleStore))"
    by (simp add: sample_defs eval_defs)
  have c: "list_all (isExpense isoGetTime) sampleCandidates"
    by (simp add: sample_defs eval_defs)
  have five: "length sampleCandidates = 5"
    by (simp add: sample_defs)
  have two: "length (filter (\<lambda>e. idOf e \<in> set (map idOf (expenses (stateWith sampleStore)))) sampleCandidates) = 2"
    by (simp add: sample_defs idOf_def)
  have e: "expenses (stateWith sampleStore) = sampleStore" "alerts (stateWith sampleStore) = []"
    by (simp_all add: stateWith_def)
  have m: "importedMessage 3 = ''Successfully imported 3 new expenses.''"
    by (simp add: importedMessage_def natToString.simps digitChar_def)
  note t = importMerge_admits_unknown_ids[where JSON_parse = "parserGiving (JArr sampleCandidates)"
        and jsonString = "''five records''" and candidates = sampleCandidates
        and st = "stateWith sampleStore" and getTime = isoGetTime, OF p s c, unfolded Let_def]
  note sorted = t[THEN conjunct2, THEN conjunct2, THEN conjunct1]
  note scenario = t[THEN conjunct2, THEN conjunct2, THEN conjunct2, THEN conjunct2,
      THEN conjunct2, THEN mp, OF conjI, OF five two]
  from scenario have "length (expenses (handleImportData (parserGiving (JArr sampleCandidates))
        isoGetTime (stateWith sampleStore) ''five records'')) = length sampleStore + 3"
    and "alerts (handleImportData (parserGiving (JArr sampleCandidates)) isoGetTime
         (stateWith sampleStore) ''five records'') = [''Successfully imported 3 new expenses.'']"
    by (simp_all add: e m)
  with s c five two sorted show ?thesis
    by (simp add: e)
qed

section \<open>Save, and the order of the collection\<close>

lemma arraySort_sorted_id:
  "sorted_wrt (notEarlier getTime) xs \<Longrightarrow> arraySort (compareByDate getTime) xs = xs"
proof (induction xs)
  case Nil
  then show ?case by (simp add: arraySort_Nil)
next
  case (Cons x xs)
  then have "arraySort (compareByDate getTime) xs = xs" by simp
  moreover have "insertSorted (compareByDate getTime) x xs = x # xs"
  proof (cases xs)
    case Nil
    then show ?thesis by simp
  next
    case (Cons y ys)
    with Cons.prems have "notEarlier getTime x y" by simp
    then have "\<not> comesAfter (compareByDate getTime) x y"
      by (auto simp: comesAfter_compareByDate notEarlier_iff)
    with Cons show ?thesis by simp
  qed
  ultimately show ?case by (simp add: arraySort_Cons)
qed

lemma isExpense_expenseJson:
  "isExpense getTime (expenseJson e) = (getTime (JStr (date e)) \<noteq> None)"
  by (simp add: isExpense_def expenseJson_def idOf_def dateOf_def timeOf_def)

lemma handleSaveExpense_ok:
  "JNull \<notin> set (expenses st) \<Longrightarrow>
   handleSaveExpense getTime nowId nowCreated st finalData =
     Inr (st\<lparr>expenses := arraySort (compareByDate getTime)
                 (expenseJson (newExpenseOf nowId nowCreated finalData) # expenses st),
             isModalOpen := False, draftExpense := None\<rparr>)"
  by (simp add: handleSaveExpense_def Let_def)

lemma date_newExpenseOf: "date (newExpenseOf nowId nowCreated finalData) = date finalData"
  by (simp add: newExpenseOf_def)

text \<open>
  Claim C7. For an expense-shaped store and a final draft whose date is a date,
  \<^verbatim>\<open>handleSaveExpense\<close> returns normally; the new collection is the sort of the new
  expense put before the old collection, it holds the old records and the new expense
  and nothing else, and it is in descending order of date.
\<close>

theorem add_inserts_and_resorts:
  assumes "list_all (isExpense getTime) (expenses st)"
    and "getTime (JStr (date finalData)) \<noteq> None"
  shows "\<exists>st'. handleSaveExpense getTime nowId nowCreated st finalData = Inr st'
     \<and> expenses st' = arraySort (compareByDate getTime)
                        (expenseJson (newExpenseOf nowId nowCreated finalData) # expenses st)
     \<and> mset (expenses st') =
         add_mset (expenseJson (newExpenseOf nowId nowCreated finalData)) (mset (expenses st))
     \<and> length (expenses st') = Suc (length (expenses st))
     \<and> sortedByDateDesc getTime (expenses st')"
proof -
  let ?new = "expenseJson (newExpenseOf nowId nowCreated finalData)"
  have nn: "JNull \<notin> set (expenses st)"
    using assms(1) by (rule list_all_notNull)
  have "isExpense getTime ?new"
    using assms(2) by (simp add: isExpense_expenseJson date_newExpenseOf)
  with assms(1) have valid: "\<forall>e \<in> set (?new # expenses st). timeOf getTime e \<noteq> None"
    by (auto simp: list_all_iff dest: isExpense_time)
  have "sortedByDateDesc getTime (arraySort (compareByDate getTime) (?new # expenses st))"
    using valid by (rule sorted_arraySort)
  then show ?thesis
    by (simp add: handleSaveExpense_ok[OF nn] mset_arraySort length_arraySort)
qed

theorem add_inserts_and_resorts_witness:
  "list_all (isExpense isoGetTime) (expenses (stateWith sampleStore))
   \<and> isoGetTime (JStr (date sampleFinalData)) \<noteq> None
   \<and> (\<exists>st'. handleSaveExpense isoGetTime 1704844800000 1704844800001 (stateWith sampleStore)
               sampleFinalData = Inr st'
          \<and> length (expenses st') = 3
          \<and> sortedByDateDesc isoGetTime (expenses st'))"
proof -
  have s: "list_all (isExpense isoGetTime) (expenses (stateWith sampleStore))"
    by (simp add: sample_defs eval_defs)
  have d: "isoGetTime (JStr (date sampleFinalData)) \<noteq> None"
    by (simp add: sampleFinalData_def eval_defs)
  have l: "length (expenses (stateWith sampleStore)) = 2"
    by (simp add: sample_defs)
  from add_inserts_and_resorts[OF s d, of 1704844800000 1704844800001] l s d
  show ?thesis by auto
qed


lemma same_date_not_after:
  "dateOf x = dateOf y \<Longrightarrow> \<not> comesAfter (compareByDate getTime) x y"
  by (auto simp: comesAfter_compareByDate timeOf_def)

lemma filter_date_arraySort:
  "filter (\<lambda>e. dateOf e = d) (arraySort (compareByDate getTime) xs) = filter (\<lambda>e. dateOf e = d) xs"
  by (rule filter_arraySort) (auto simp: same_date_not_after)

lemma expenses_handleImportData:
  assumes "JSON_parse jsonString = Some (JArr candidates)"
    and "list_all (isExpense getTime) (expenses st)"
    and "list_all (isExpense getTime) candidates"
  shows "expenses (handleImportData JSON_parse getTime st jsonString) =
           arraySort (compareByDate getTime)
             (filter (\<lambda>e. idOf e \<notin> set (map idOf (expenses st))) candidates @ expenses st)"
    and "alerts (handleImportData JSON_parse getTime st jsonString) =
           alerts st @ [importedMessage (length
             (filter (\<lambda>e. idOf e \<notin> set (map idOf (expenses st))) candidates))]"
proof -
  have nn: "JNull \<notin> set (expenses st)" "JNull \<notin> set candidates"
    using assms(2,3) by (auto dest: list_all_notNull)
  note h = handleImportData_array[of JSON_parse jsonString candidates st getTime, OF assms(1) nn]
  show "expenses (handleImportData JSON_parse getTime st jsonString) =
           arraySort (compareByDate getTime)
             (filter (\<lambda>e. idOf e \<notin> set (map idOf (expenses st))) candidates @ expenses st)"
    by (simp add: h alert_def filter_setHas[OF assms(3)])
  show "alerts (handleImportData JSON_parse getTime st jsonString) =
           alerts st @ [importedMessage (length
             (filter (\<lambda>e. idOf e \<notin> set (map idOf (expenses st))) candidates))]"
    by (simp add: h alert_def filter_setHas[OF assms(3)])
qed

text \<open>
  Claim C10. After a save and after an import, the records of any one date \<open>d\<close> are
  the newly inserted records of that date, in the order they were given, followed by
  the previously stored records of that date in their previous order.
\<close>

theorem new_records_lead_their_date_group:
  assumes "list_all (isExpense getTime) (expenses st)"
    and "getTime (JStr (date finalData)) \<noteq> None"
    and "JSON_parse jsonString = Some (JArr candidates)"
    and "list_all (isExpense getTime) candidates"
  shows "(\<exists>st'. handleSaveExpense getTime nowId nowCreated st finalData = Inr st'
            \<and> filter (\<lambda>e. dateOf e = d) (expenses st') =
                filter (\<lambda>e. dateOf e = d) [expenseJson (newExpenseOf nowId nowCreated finalData)]
                @ filter (\<lambda>e. dateOf e = d) (expenses st))
       \<and> filter (\<lambda>e. dateOf e = d) (expenses (handleImportData JSON_parse getTime st jsonString)) =
           filter (\<lambda>e. dateOf e = d)
             (filter (\<lambda>e. idOf e \<notin> set (map idOf (expenses st))) candidates)
           @ filter (\<lambda>e. dateOf e = d) (expenses st)"
proof -
  have nn: "JNull \<notin> set (expenses st)"
    using assms(1) by (rule list_all_notNull)
  have save: "\<exists>st'. handleSaveExpense getTime nowId nowCreated st finalData = Inr st'
            \<and> filter (\<lambda>e. dateOf e = d) (expenses st') =
                filter (\<lambda>e. dateOf e = d) [expenseJson (newExpenseOf nowId nowCreated finalData)]
                @ filter (\<lambda>e. dateOf e = d) (expenses st)"
    by (simp add: handleSaveExpense_ok[OF nn] filter_date_arraySort)
  have "filter (\<lambda>e. dateOf e = d) (expenses (handleImportData JSON_parse getTime st jsonString)) =
           filter (\<lambda>e. dateOf e = d)
             (filter (\<lambda>e. idOf e \<notin> set (map idOf (expenses st))) candidates)
           @ filter (\<lambda>e. dateOf e = d) (expenses st)"
    unfolding expenses_handleImportData(1)[where JSON_parse = JSON_parse and jsonString = jsonString, OF assms(3,1,4)] filter_date_arraySort
    by simp
  with save show ?thesis by blast
qed

lemma list_all_arraySort: "list_all P (arraySort cmp xs) = list_all P xs"
  by (simp add: list_all_iff set_arraySort)

text \<open>
  Claim C3. Importing the same text a second time leaves the collection as the first
  import left it, and the second import reports 0 new expenses.
\<close>

theorem importMerge_idempotent:
  assumes "JSON_parse jsonString = Some (JArr candidates)"
    and "list_all (isExpense getTime) (expenses st)"
    and "list_all (isExpense getTime) candidates"
  shows "expenses (handleImportData JSON_parse getTime
                     (handleImportData JSON_parse getTime st jsonString) jsonString)
           = expenses (handleImportData JSON_parse getTime st jsonString)
       \<and> alerts (handleImportData JSON_parse getTime
                     (handleImportData JSON_parse getTime st jsonString) jsonString)
           = alerts (handleImportData JSON_parse getTime st jsonString) @ [importedMessage 0]"
proof -
  define st1 where "st1 = handleImportData JSON_parse getTime st jsonString"
  define admitted where "admitted = filter (\<lambda>e. idOf e \<notin> set (map idOf (expenses st))) candidates"
  have e1: "expenses st1 = arraySort (compareByDate getTime) (admitted @ expenses st)"
    unfolding st1_def admitted_def by (rule expenses_handleImportData(1)[where JSON_parse = JSON_parse and jsonString = jsonString, OF assms])
  have all1: "list_all (isExpense getTime) (expenses st1)"
    using assms(2,3) by (auto simp: e1 set_arraySort admitted_def list_all_iff)
  have ids1: "set (map idOf (expenses st1)) = set (map idOf admitted) \<union> set (map idOf (expenses st))"
    by (simp add: e1 set_arraySort image_Un)
  have none: "filter (\<lambda>e. idOf e \<notin> set (map idOf (expenses st1))) candidates = []"
    unfolding ids1 by (auto simp: filter_empty_conv admitted_def)
  have valid: "\<forall>e \<in> set (admitted @ expenses st). timeOf getTime e \<noteq> None"
    using assms(2,3) by (auto simp: admitted_def list_all_iff dest: isExpense_time)
  have "sortedByDateDesc getTime (expenses st1)"
    unfolding e1 using valid by (rule sorted_arraySort)
  then have again: "arraySort (compareByDate getTime) (expenses st1) = expenses st1"
    unfolding sortedByDateDesc_def by (rule arraySort_sorted_id)
  have "expenses (handleImportData JSON_parse getTime st1 jsonString) =
      arraySort (compareByDate getTime)
        (filter (\<lambda>e. idOf e \<notin> set (map idOf (expenses st1))) candidates @ expenses st1)"
    by (rule expenses_handleImportData(1)[where JSON_parse = JSON_parse and jsonString = jsonString, OF assms(1) all1 assms(3)])
  then have "expenses (handleImportData JSON_parse getTime st1 jsonString) = expenses st1"
    by (simp only: none append_Nil again)
  moreover have "alerts (handleImportData JSON_parse getTime st1 jsonString) =
      alerts st1 @ [importedMessage (length
        (filter (\<lambda>e. idOf e \<notin> set (map idOf (expenses st1))) candidates))]"
    by (rule expenses_handleImportData(2)[where JSON_parse = JSON_parse and jsonString = jsonString, OF assms(1) all1 assms(3)])
  then have "alerts (handleImportData JSON_parse getTime st1 jsonString)
      = alerts st1 @ [importedMessage 0]"
    by (simp only: none list.size)
  ultimately show ?thesis
    unfolding st1_def by simp
qed


theorem importMerge_idempotent_witness:
  "parserGiving (JArr sampleCandidates) ''five records'' = Some (JArr sampleCandidates)
   \<and> list_all (isExpense isoGetTime) (expenses (stateWith sampleStore))
   \<and> list_all (isExpense isoGetTime) sampleCandidates
   \<and> expenses (handleImportData (parserGiving (JArr sampleCandidates)) isoGetTime
         (handleImportData (parserGiving (JArr sampleCandidates)) isoGetTime
            (stateWith sampleStore) ''five records'') ''five records'')
       = expenses (handleImportData (parserGiving (JArr sampleCandidates)) isoGetTime
            (stateWith sampleStore) ''five records'')
   \<and> alerts (handleImportData (parserGiving (JArr sampleCandidates)) isoGetTime
         (handleImportData (parserGiving (JArr sampleCandidates)) isoGetTime
            (stateWith sampleStore) ''five records'') ''five records'')
       = alerts (handleImportData (parserGiving (JArr sampleCandidates)) isoGetTime
            (stateWith sampleStore) ''five records'') @ [''Successfully imported 0 new expenses.'']"
proof -
  have p: "parserGiving (JArr sampleCandidates) ''five records'' = Some (JArr sampleCandidates)"
    by (simp add: parserGiving_def)
  have s: "list_all (isExpense isoGetTime) (expenses (stateWith sampleStore))"
    by (simp add: sample_defs eval_defs)
  have c: "list_all (isExpense isoGetTime) sampleCandidates"
    by (simp add: sample_defs eval_defs)
  have m: "importedMessage 0 = ''Successfully imported 0 new expenses.''"
    by (simp add: importedMessage_def natToString.simps digitChar_def)
  note t = importMerge_idempotent[where JSON_parse = "parserGiving (JArr sampleCandidates)"
        and jsonString = "''five records''" and candidates = sampleCandidates
        and st = "stateWith sampleStore" and getTime = isoGetTime, OF p s c, unfolded m]
  from p s c t show ?thesis by blast
qed

theorem new_records_lead_their_date_group_witness:
  "list_all (isExpense isoGetTime) (expenses (stateWith sampleStore))
   \<and> isoGetTime (JStr (date sampleFinalData)) \<noteq> None
   \<and> parserGiving (JArr sampleCandidates) ''five records'' = Some (JArr sampleCandidates)
   \<and> list_all (isExpense isoGetTime) sampleCandidates
   \<and> filter (\<lambda>e. dateOf e = Some (JStr ''2024-01-10''))
        (expenses (handleImportData (parserGiving (JArr sampleCandidates)) isoGetTime
           (stateWith sampleStore) ''five records''))
       = map expenseJson
           [sampleExpense ''8'' ''2024-01-10'' 30 B,
            sampleExpense ''1'' ''2024-01-10'' 100 A,
            sampleExpense ''2'' ''2024-01-10'' 50 B]"
proof -
  have s: "list_all (isExpense isoGetTime) (expenses (stateWith sampleStore))"
    by (simp add: sample_defs eval_defs)
  have d: "isoGetTime (JStr (date sampleFinalData)) \<noteq> None"
    by (simp add: sampleFinalData_def eval_defs)
  have p: "parserGiving (JArr sampleCandidates) ''five records'' = Some (JArr sampleCandidates)"
    by (simp add: parserGiving_def)
  have c: "list_all (isExpense isoGetTime) sampleCandidates"
    by (simp add: sample_defs eval_defs)
  note t = new_records_lead_their_date_group[where JSON_parse = "parserGiving (JArr sampleCandidates)"
        and jsonString = "''five records''" and candidates = sampleCandidates
        and st = "stateWith sampleStore" and getTime = isoGetTime
        and finalData = sampleFinalData and d = "Some (JStr ''2024-01-10'')",
        OF s d p c, THEN conjunct2]
  have g: "filter (\<lambda>e. dateOf e = Some (JStr ''2024-01-10''))
             (filter (\<lambda>e. idOf e \<notin> set (map idOf (expenses (stateWith sampleStore)))) sampleCandidates)
           @ filter (\<lambda>e. dateOf e = Some (JStr ''2024-01-10'')) (expenses (stateWith sampleStore))
       = map expenseJson
           [sampleExpense ''8'' ''2024-01-10'' 30 B,
            sampleExpense ''1'' ''2024-01-10'' 100 A,
            sampleExpense ''2'' ''2024-01-10'' 50 B]"
    by (simp add: sample_defs idOf_def dateOf_def)
  from s d p c t[unfolded g] show ?thesis by blast
qed

section \<open>Identifiers\<close>

lemma distinctIds_arraySort: "distinctIds (arraySort cmp xs) = distinctIds xs"
proof -
  have "mset (map idOf (arraySort cmp xs)) = mset (map idOf xs)"
    by (simp add: mset_arraySort)
  then show ?thesis
    unfolding distinctIds_def by (rule mset_eq_imp_distinct_iff)
qed

lemma idOf_expenseJson: "idOf (expenseJson e) = Some (JStr (ident e))"
  by (simp add: idOf_def expenseJson_def)

lemma ident_newExpenseOf: "ident (newExpenseOf nowId nowCreated finalData) = natToString nowId"
  by (simp add: newExpenseOf_def)

text \<open>
  Claim C6, as amended. The identifier given at promotion is the decimal text of the
  clock reading. From an expense-shaped store with pairwise distinct identifiers, a
  save yields pairwise distinct identifiers when that text is not yet an identifier of
  the store, and an import yields pairwise distinct identifiers when no identifier that
  is new to the store is carried by two of the candidates.
\<close>

theorem identifiers_stay_distinct:
  assumes "list_all (isExpense getTime) (expenses st)"
    and "distinctIds (expenses st)"
  shows "idOf (expenseJson (newExpenseOf nowId nowCreated finalData)) = Some (JStr (natToString nowId))
       \<and> (Some (JStr (natToString nowId)) \<notin> set (map idOf (expenses st))
            \<longrightarrow> (\<exists>st'. handleSaveExpense getTime nowId nowCreated st finalData = Inr st'
                    \<and> distinctIds (expenses st')))
       \<and> (JSON_parse jsonString = Some (JArr candidates)
            \<and> list_all (isExpense getTime) candidates
            \<and> distinctIds (filter (\<lambda>e. idOf e \<notin> set (map idOf (expenses st))) candidates)
            \<longrightarrow> distinctIds (expenses (handleImportData JSON_parse getTime st jsonString)))"
proof -
  have nn: "JNull \<notin> set (expenses st)"
    using assms(1) by (rule list_all_notNull)
  have idnew: "idOf (expenseJson (newExpenseOf nowId nowCreated finalData)) = Some (JStr (natToString nowId))"
    by (simp add: idOf_expenseJson ident_newExpenseOf)
  have save: "\<exists>st'. handleSaveExpense getTime nowId nowCreated st finalData = Inr st'
                    \<and> distinctIds (expenses st')"
    if "Some (JStr (natToString nowId)) \<notin> set (map idOf (expenses st))"
    using that assms(2)
    by (simp add: handleSaveExpense_ok[OF nn] distinctIds_arraySort)
      (simp add: distinctIds_def idnew)
  have imp: "distinctIds (expenses (handleImportData JSON_parse getTime st jsonString))"
    if p: "JSON_parse jsonString = Some (JArr candidates)"
      and c: "list_all (isExpense getTime) candidates"
      and d: "distinctIds (filter (\<lambda>e. idOf e \<notin> set (map idOf (expenses st))) candidates)"
  proof -
    have "distinctIds (filter (\<lambda>e. idOf e \<notin> set (map idOf (expenses st))) candidates @ expenses st)"
      using d assms(2) by (auto simp: distinctIds_def)
    then show ?thesis
      by (simp only: expenses_handleImportData(1)[where JSON_parse = JSON_parse
            and jsonString = jsonString, OF p assms(1) c] distinctIds_arraySort)
  qed
  from idnew save imp show ?thesis by blast
qed

text \<open>
  Claim C6 as stated fails. The sample store has distinct identifiers. Importing two
  expense-shaped candidates that share the new identifier 7 admits both. A first save
  at clock reading 1704844800000 keeps the identifiers distinct; a second save at the
  same reading is given the same identifier.
\<close>

theorem identifier_uniqueness_counterexample:
  "distinctIds sampleStore
   \<and> list_all (isExpense isoGetTime) sampleTwins
   \<and> \<not> distinctIds (expenses (handleImportData (parserGiving (JArr sampleTwins)) isoGetTime
           (stateWith sampleStore) ''two records''))
   \<and> map_sum id (\<lambda>s. distinctIds (expenses s))
        (handleSaveExpense isoGetTime 1704844800000 1704844800000 (stateWith sampleStore)
           sampleFinalData) = Inr True
   \<and> map_sum id (\<lambda>s. distinctIds (expenses s))
        (saveTwice isoGetTime 1704844800000 (stateWith sampleStore) sampleFinalData) = Inr False"
proof -
  have a: "distinctIds sampleStore"
    by (simp add: distinctIds_def sample_defs idOf_def)
  have b: "list_all (isExpense isoGetTime) sampleTwins"
    by (simp add: sampleTwins_def sample_defs eval_defs)
  have c: "\<not> distinctIds (expenses (handleImportData (parserGiving (JArr sampleTwins)) isoGetTime
           (stateWith sampleStore) ''two records''))"
    by (simp add: distinctIds_arraySort handleImportData_def parserGiving_def stateWith_def alert_def Let_def)
       (simp add: distinctIds_def sampleTwins_def sample_defs idOf_def setHas_def)
  have d: "map_sum id (\<lambda>s. distinctIds (expenses s))
        (handleSaveExpense isoGetTime 1704844800000 1704844800000 (stateWith sampleStore)
           sampleFinalData) = Inr True"
    by (simp add: handleSaveExpense_def Let_def distinctIds_arraySort stateWith_def)
       (simp add: distinctIds_def sample_defs idOf_def newExpenseOf_def natToString.simps digitChar_def)
  have e: "map_sum id (\<lambda>s. distinctIds (expenses s))
        (saveTwice isoGetTime 1704844800000 (stateWith sampleStore) sampleFinalData) = Inr False"
    by (simp add: saveTwice_def handleSaveExpense_def Let_def distinctIds_arraySort stateWith_def set_arraySort)
       (simp add: distinctIds_def sample_defs idOf_def newExpenseOf_def set_arraySort)
  from a b c d e show ?thesis by blast
qed


theorem identifiers_stay_distinct_witness:
  "list_all (isExpense isoGetTime) (expenses (stateWith sampleStore))
   \<and> distinctIds (expenses (stateWith sampleStore))
   \<and> Some (JStr (natToString 1704844800000)) \<notin> set (map idOf (expenses (stateWith sampleStore)))
   \<and> parserGiving (JArr sampleCandidates) ''five records'' = Some (JArr sampleCandidates)
   \<and> list_all (isExpense isoGetTime) sampleCandidates
   \<and> distinctIds (filter (\<lambda>e. idOf e \<notin> set (map idOf (expenses (stateWith sampleStore))))
         sampleCandidates)
   \<and> (\<exists>st'. handleSaveExpense isoGetTime 1704844800000 1704844800001 (stateWith sampleStore)
               sampleFinalData = Inr st' \<and> distinctIds (expenses st'))
   \<and> distinctIds (expenses (handleImportData (parserGiving (JArr sampleCandidates)) isoGetTime
         (stateWith sampleStore) ''five records''))"
proof -
  have s: "list_all (isExpense isoGetTime) (expenses (stateWith sampleStore))"
    by (simp add: sample_defs eval_defs)
  have u: "distinctIds (expenses (stateWith sampleStore))"
    by (simp add: distinctIds_def sample_defs idOf_def)
  have n: "Some (JStr (natToString 1704844800000)) \<notin> set (map idOf (expenses (stateWith sampleStore)))"
    by (simp add: sample_defs idOf_def natToString.simps digitChar_def)
  have p: "parserGiving (JArr sampleCandidates) ''five records'' = Some (JArr sampleCandidates)"
    by (simp add: parserGiving_def)
  have c: "list_all (isExpense isoGetTime) sampleCandidates"
    by (simp add: sample_defs eval_defs)
  have d: "distinctIds (filter (\<lambda>e. idOf e \<notin> set (map idOf (expenses (stateWith sampleStore))))
         sampleCandidates)"
    by (simp add: distinctIds_def sample_defs idOf_def)
  note t = identifiers_stay_distinct[where getTime = isoGetTime and st = "stateWith sampleStore"
      and nowId = 1704844800000 and nowCreated = 1704844800001 and finalData = sampleFinalData
      and JSON_parse = "parserGiving (JArr sampleCandidates)" and jsonString = "''five records''"
      and candidates = sampleCandidates, OF s u]
  from t n have "\<exists>st'. handleSaveExpense isoGetTime 1704844800000 1704844800001 (stateWith sampleStore)
               sampleFinalData = Inr st' \<and> distinctIds (expenses st')"
    by blast
  moreover from t p c d have "distinctIds (expenses (handleImportData
      (parserGiving (JArr sampleCandidates)) isoGetTime (stateWith sampleStore) ''five records''))"
    by blast
  ultimately show ?thesis
    using s u n p c d by blast
qed

section \<open>Import of a malformed payload\<close>

lemma handleImportData_notArray:
  "JSON_parse jsonString = Some v \<Longrightarrow> \<not> isArray v \<Longrightarrow>
   handleImportData JSON_parse getTime st jsonString = alert invalidFormatMessage st"
  by (cases v) (simp_all add: handleImportData_def)

lemma expenses_alert: "expenses (alert msg st) = expenses st"
  by (simp add: alert_def)

lemma handleImportData_changes:
  assumes "expenses (handleImportData JSON_parse getTime st jsonString) \<noteq> expenses st"
  shows "\<exists>items. JSON_parse jsonString = Some (JArr items) \<and> JNull \<notin> set items"
proof (cases "JSON_parse jsonString")
  case None
  with assms show ?thesis
    by (simp add: handleImportData_def expenses_alert)
next
  case (Some v)
  show ?thesis
  proof (cases "isArray v")
    case False
    with Some assms show ?thesis
      by (simp add: handleImportData_notArray expenses_alert)
  next
    case True
    then obtain items where v: "v = JArr items"
      by (cases v) simp_all
    with Some assms show ?thesis
      by (auto simp: handleImportData_def expenses_alert split: if_splits)
  qed
qed

text \<open>
  Claim C5, as amended. When the text does not parse, when it parses to a value that is
  not an array, and when it parses to an array with a \<^verbatim>\<open>null\<close> element, the import
  shows an error message and changes nothing else: the resulting state is the old one
  with the message added. The collection changes only when the text parses to an array
  without a \<^verbatim>\<open>null\<close> element; the shape of the elements is not looked at.
\<close>

theorem import_failure_leaves_store:
  "(JSON_parse jsonString = None \<longrightarrow>
      handleImportData JSON_parse getTime st jsonString
        = st\<lparr>alerts := alerts st @ [parseFailedMessage]\<rparr>)
   \<and> (\<forall>v. JSON_parse jsonString = Some v \<and> \<not> isArray v \<longrightarrow>
        handleImportData JSON_parse getTime st jsonString
          = st\<lparr>alerts := alerts st @ [invalidFormatMessage]\<rparr>)
   \<and> (\<forall>items. JSON_parse jsonString = Some (JArr items) \<and> JNull \<in> set items \<longrightarrow>
        handleImportData JSON_parse getTime st jsonString
          = st\<lparr>alerts := alerts st @ [parseFailedMessage]\<rparr>)
   \<and> (expenses (handleImportData JSON_parse getTime st jsonString) \<noteq> expenses st \<longrightarrow>
        (\<exists>items. JSON_parse jsonString = Some (JArr items) \<and> JNull \<notin> set items))"
proof -
  have a: "JSON_parse jsonString = None \<longrightarrow>
      handleImportData JSON_parse getTime st jsonString
        = st\<lparr>alerts := alerts st @ [parseFailedMessage]\<rparr>"
    by (simp add: handleImportData_def alert_def)
  have b: "\<forall>v. JSON_parse jsonString = Some v \<and> \<not> isArray v \<longrightarrow>
        handleImportData JSON_parse getTime st jsonString
          = st\<lparr>alerts := alerts st @ [invalidFormatMessage]\<rparr>"
    by (simp add: handleImportData_notArray alert_def)
  have c: "\<forall>items. JSON_parse jsonString = Some (JArr items) \<and> JNull \<in> set items \<longrightarrow>
        handleImportData JSON_parse getTime st jsonString
          = st\<lparr>alerts := alerts st @ [parseFailedMessage]\<rparr>"
    by (simp add: handleImportData_def alert_def)
  have d: "expenses (handleImportData JSON_parse getTime st jsonString) \<noteq> expenses st \<longrightarrow>
        (\<exists>items. JSON_parse jsonString = Some (JArr items) \<and> JNull \<notin> set items)"
    using handleImportData_changes by blast
  from a b c d show ?thesis by blast
qed

text \<open>
  Claim C5 as stated fails. The text \<^verbatim>\<open>[{}]\<close> parses to an array whose one element
  is not expense-shaped; the import puts that element into the store and reports one
  new expense.
\<close>

theorem import_accepts_any_array_counterexample:
  "parserGiving (JArr [JObj []]) ''[{}]'' = Some (JArr [JObj []])
   \<and> \<not> isExpense isoGetTime (JObj [])
   \<and> expenses (handleImportData (parserGiving (JArr [JObj []])) isoGetTime
        (stateWith sampleStore) ''[{}]'') = JObj [] # sampleStore
   \<and> expenses (stateWith sampleStore) = sampleStore
   \<and> alerts (handleImportData (parserGiving (JArr [JObj []])) isoGetTime
        (stateWith sampleStore) ''[{}]'') = [''Successfully imported 1 new expenses.'']"
proof -
  have a: "parserGiving (JArr [JObj []]) ''[{}]'' = Some (JArr [JObj []])"
    by (simp add: parserGiving_def)
  have b: "\<not> isExpense isoGetTime (JObj [])"
    by (simp add: isExpense_def idOf_def)
  have c: "expenses (handleImportData (parserGiving (JArr [JObj []])) isoGetTime
        (stateWith sampleStore) ''[{}]'') = JObj [] # sampleStore"
    by (simp add: handleImportData_def parserGiving_def stateWith_def alert_def Let_def
        setHas_def sample_defs idOf_def arraySort_def comesAfter_def compareByDate_def
        subtractTimes_def timeOf_def dateOf_def digitValue_def
        epochDay_def daysInMonth_def isLeapYear_def)
  have d: "expenses (stateWith sampleStore) = sampleStore"
    by (simp add: stateWith_def)
  have e: "alerts (handleImportData (parserGiving (JArr [JObj []])) isoGetTime
        (stateWith sampleStore) ''[{}]'') = [''Successfully imported 1 new expenses.'']"
    by (simp add: handleImportData_def parserGiving_def stateWith_def alert_def Let_def
        setHas_def sample_defs idOf_def importedMessage_def natToString.simps digitChar_def)
  from a b c d e show ?thesis by blast
qed

theorem import_failure_leaves_store_witness:
  "parserFailing ''{'' = None
   \<and> handleImportData parserFailing isoGetTime (stateWith sampleStore) ''{''
       = (stateWith sampleStore)\<lparr>alerts := [parseFailedMessage]\<rparr>
   \<and> parserGiving (JObj []) ''{}'' = Some (JObj []) \<and> \<not> isArray (JObj [])
   \<and> handleImportData (parserGiving (JObj [])) isoGetTime (stateWith sampleStore) ''{}''
       = (stateWith sampleStore)\<lparr>alerts := [invalidFormatMessage]\<rparr>
   \<and> parserGiving (JArr [JNull]) ''[null]'' = Some (JArr [JNull]) \<and> JNull \<in> set [JNull]
   \<and> handleImportData (parserGiving (JArr [JNull])) isoGetTime (stateWith sampleStore) ''[null]''
       = (stateWith sampleStore)\<lparr>alerts := [parseFailedMessage]\<rparr>
   \<and> expenses (handleImportData (parserGiving (JArr [JObj []])) isoGetTime
        (stateWith sampleStore) ''[{}]'') \<noteq> expenses (stateWith sampleStore)
   \<and> (\<exists>items. parserGiving (JArr [JObj []]) ''[{}]'' = Some (JArr items) \<and> JNull \<notin> set items)"
proof -
  have al: "alerts (stateWith sampleStore) = []"
    by (simp add: stateWith_def)
  have f: "parserFailing ''{'' = None"
    by (simp add: parserFailing_def)
  note t1 = import_failure_leaves_store[where JSON_parse = parserFailing and jsonString = "''{''"
      and getTime = isoGetTime and st = "stateWith sampleStore", THEN conjunct1, THEN mp, OF f]
  have o: "parserGiving (JObj []) ''{}'' = Some (JObj []) \<and> \<not> isArray (JObj [])"
    by (simp add: parserGiving_def)
  note t2 = import_failure_leaves_store[where JSON_parse = "parserGiving (JObj [])"
      and jsonString = "''{}''" and getTime = isoGetTime and st = "stateWith sampleStore",
      THEN conjunct2, THEN conjunct1, THEN spec, THEN mp, OF o]
  have n: "parserGiving (JArr [JNull]) ''[null]'' = Some (JArr [JNull]) \<and> JNull \<in> set [JNull]"
    by (simp add: parserGiving_def)
  note t3 = import_failure_leaves_store[where JSON_parse = "parserGiving (JArr [JNull])"
      and jsonString = "''[null]''" and getTime = isoGetTime and st = "stateWith sampleStore",
      THEN conjunct2, THEN conjunct2, THEN conjunct1, THEN spec, THEN mp, OF n]
  have c: "expenses (handleImportData (parserGiving (JArr [JObj []])) isoGetTime
        (stateWith sampleStore) ''[{}]'') \<noteq> expenses (stateWith sampleStore)"
    by (simp add: handleImportData_def parserGiving_def stateWith_def alert_def Let_def
        setHas_def sample_defs idOf_def arraySort_def comesAfter_def compareByDate_def
        subtractTimes_def timeOf_def dateOf_def digitValue_def
        epochDay_def daysInMonth_def isLeapYear_def)
  note t4 = import_failure_leaves_store[where JSON_parse = "parserGiving (JArr [JObj []])"
      and jsonString = "''[{}]''" and getTime = isoGetTime and st = "stateWith sampleStore",
      THEN conjunct2, THEN conjunct2, THEN conjunct2, THEN mp, OF c]
  from f t1 o t2 n t3 c t4 show ?thesis
    by (simp add: al)
qed

section \<open>Grouping by date\<close>

lemma map_of_pushTo:
  "map_of (pushTo k e g) =
     (map_of g)(k \<mapsto> (case map_of g k of None \<Rightarrow> [e] | Some b \<Rightarrow> b @ [e]))"
  by (induction g) (auto simp: fun_eq_iff)

lemma keys_pushTo: "set (map fst (pushTo k e g)) = insert k (set (map fst g))"
  by (induction g) force+

lemma distinct_pushTo: "distinct (map fst g) \<Longrightarrow> distinct (map fst (pushTo k e g))"
  by (induction g) (auto simp: keys_pushTo simp flip: set_map)

lemma keys_foldl_pushTo:
  "set (map fst (foldl (\<lambda>groups expense. pushTo (key expense) expense groups) g xs))
     = set (map fst g) \<union> key ` set xs"
  by (induction xs arbitrary: g) (auto simp: keys_pushTo simp del: set_map)

lemma distinct_foldl_pushTo:
  "distinct (map fst g) \<Longrightarrow>
   distinct (map fst (foldl (\<lambda>groups expense. pushTo (key expense) expense groups) g xs))"
  by (induction xs arbitrary: g) (auto simp: distinct_pushTo)

lemma map_of_foldl_pushTo:
  "map_of (foldl (\<lambda>groups expense. pushTo (key expense) expense groups) g xs) d =
     (case map_of g d of
        None \<Rightarrow> if d \<in> key ` set xs then Some (filter (\<lambda>e. key e = d) xs) else None
      | Some b \<Rightarrow> Some (b @ filter (\<lambda>e. key e = d) xs))"
proof (induction xs arbitrary: g)
  case Nil
  then show ?case by (simp split: option.splits)
next
  case (Cons x xs)
  show ?case
    by (simp add: Cons.IH map_of_pushTo split: option.splits)
qed

lemma mset_objectKeys: "mset (objectKeys g) = mset (map fst g)"
proof -
  define ks where "ks = map fst g"
  define indices where
    "indices = List.map_filter (\<lambda>k. map_option (\<lambda>n. (n, k)) (arrayIndex k)) ks"
  have "mset (map snd (List.map_filter (\<lambda>k. map_option (\<lambda>n. (n, k)) (arrayIndex k)) ys))
          = mset (filter (\<lambda>k. arrayIndex k \<noteq> None) ys)" for ys
    by (induction ys) (auto simp: List.map_filter_def)
  then have a: "mset (map snd indices) = mset (filter (\<lambda>k. arrayIndex k \<noteq> None) ks)"
    by (simp add: indices_def)
  have "mset (map snd (sort_key fst indices)) = image_mset snd (mset (sort_key fst indices))"
    by simp
  also have "\<dots> = mset (map snd indices)"
    by simp
  finally have b: "mset (map snd (sort_key fst indices)) = mset (filter (\<lambda>k. arrayIndex k \<noteq> None) ks)"
    using a by simp
  have c: "mset (filter (\<lambda>k. arrayIndex k \<noteq> None) ys) + mset (filter (\<lambda>k. arrayIndex k = None) ys)
          = mset ys" for ys
    by (induction ys) auto
  have "objectKeys g = map snd (sort_key fst indices) @ filter (\<lambda>k. arrayIndex k = None) ks"
    by (simp add: objectKeys_def Let_def indices_def ks_def)
  then have "mset (objectKeys g) = mset ks"
    using b c[of ks] by (simp only: mset_append)
  then show ?thesis by (simp add: ks_def)
qed

lemma mset_sortedDates: "mset (sortedDates getTime g) = mset (map fst g)"
  by (simp add: sortedDates_def mset_arraySort mset_objectKeys)

lemma mset_concat_filters:
  "distinct ds \<Longrightarrow>
   mset (concat (map (\<lambda>d. filter (\<lambda>e. key e = d) xs) ds)) = mset (filter (\<lambda>e. key e \<in> set ds) xs)"
proof (induction ds)
  case Nil
  then show ?case by simp
next
  case (Cons d ds)
  have "mset (filter (\<lambda>e. key e = d) xs) + mset (filter (\<lambda>e. key e \<in> set ds) xs)
          = mset (filter (\<lambda>e. key e = d \<or> key e \<in> set ds) xs)"
    using Cons.prems by (induction xs) auto
  with Cons show ?case by simp
qed


lemma groupedExpenses_ok:
  assumes "JNull \<notin> set xs"
    and "\<forall>e \<in> set xs. propertyKey toStr (dateOf e) \<notin> set objectPrototypeNames"
  shows "groupedExpenses toStr xs =
           Inr (foldl (\<lambda>groups expense.
                  pushTo (propertyKey toStr (dateOf expense)) expense groups) [] xs)"
  using assms by (simp add: groupedExpenses_def list_ex_iff)

lemma renderedRows_ok:
  assumes "\<forall>d \<in> set ds. map_of g d = Some (bucket d)"
  shows "renderedRows g ds = Inr (concat (map bucket ds))"
proof -
  have "list_all (\<lambda>d. map_of g d \<noteq> None) ds"
    using assms by (simp add: list_all_iff)
  moreover have "map (\<lambda>d. case map_of g d of Some b \<Rightarrow> b | None \<Rightarrow> []) ds = map bucket ds"
    using assms by (induction ds) auto
  ultimately show ?thesis
    by (simp only: renderedRows_def if_True)
qed

lemma datesDescending_sortedDates:
  assumes "\<forall>d \<in> set (map fst g). getTime (JStr d) \<noteq> None"
  shows "datesDescending getTime (sortedDates getTime g)"
proof -
  have "set (objectKeys g) = set (map fst g)"
    by (metis mset_objectKeys set_mset_mset)
  with assms have "\<forall>d \<in> set (objectKeys g). getTime (JStr d) \<noteq> None"
    by simp
  then show ?thesis
    unfolding datesDescending_def sortedDates_def
    by (rule sorted_arraySort_key[where k = "\<lambda>d. getTime (JStr d)"])
qed

text \<open>
  Claim C4. For a collection without a \<^verbatim>\<open>null\<close> element whose date keys do not name
  an inherited member of objects, the grouping and the list return normally. The dates
  listed are the distinct date keys of the collection, in descending order when each of
  them is a date. The rows are, date by date in that order, the records of that date in
  their order in the collection. They hold every record of the collection exactly
  once, so there are as many rows as records.
\<close>

theorem grouping_keeps_every_record:
  assumes "JNull \<notin> set xs"
    and "\<forall>e \<in> set xs. propertyKey toStr (dateOf e) \<notin> set objectPrototypeNames"
  shows "\<exists>groups rows.
           groupedExpenses toStr xs = Inr groups
         \<and> distinct (sortedDates getTime groups)
         \<and> set (sortedDates getTime groups) = (\<lambda>e. propertyKey toStr (dateOf e)) ` set xs
         \<and> ((\<forall>e \<in> set xs. getTime (JStr (propertyKey toStr (dateOf e))) \<noteq> None)
              \<longrightarrow> datesDescending getTime (sortedDates getTime groups))
         \<and> expenseList toStr getTime xs = Inr rows
         \<and> rows = concat (map (\<lambda>d. filter (\<lambda>e. propertyKey toStr (dateOf e) = d) xs)
                            (sortedDates getTime groups))
         \<and> length rows = length xs
         \<and> mset rows = mset xs"
proof -
  define key where "key = (\<lambda>e. propertyKey toStr (dateOf e))"
  define groups where
    "groups = foldl (\<lambda>groups expense. pushTo (key expense) expense groups) [] xs"
  define ds where "ds = sortedDates getTime groups"
  define rows where "rows = concat (map (\<lambda>d. filter (\<lambda>e. key e = d) xs) ds)"
  have g: "groupedExpenses toStr xs = Inr groups"
    unfolding groups_def key_def using assms by (rule groupedExpenses_ok)
  have keys: "set (map fst groups) = key ` set xs"
    unfolding groups_def by (simp add: keys_foldl_pushTo del: set_map)
  have dist: "distinct (map fst groups)"
    unfolding groups_def by (rule distinct_foldl_pushTo) simp
  have mds: "mset ds = mset (map fst groups)"
    unfolding ds_def by (rule mset_sortedDates)
  have dds: "distinct ds"
    using mds dist by (metis mset_eq_imp_distinct_iff)
  have sds: "set ds = key ` set xs"
    using mds keys by (metis set_mset_mset)
  have bucket: "map_of groups d = Some (filter (\<lambda>e. key e = d) xs)" if "d \<in> set ds" for d
    using that sds unfolding groups_def by (simp add: map_of_foldl_pushTo)
  have r: "renderedRows groups ds = Inr rows"
    unfolding rows_def using bucket by (intro renderedRows_ok) simp
  have e: "expenseList toStr getTime xs = Inr rows"
    by (simp add: expenseList_def g r[unfolded ds_def])
  have "mset rows = mset (filter (\<lambda>e. key e \<in> set ds) xs)"
    unfolding rows_def using dds by (rule mset_concat_filters)
  also have "\<dots> = mset xs"
    by (simp add: sds)
  finally have m: "mset rows = mset xs" .
  then have l: "length rows = length xs"
    by (metis size_mset)
  have desc: "datesDescending getTime ds"
    if "\<forall>e \<in> set xs. getTime (JStr (key e)) \<noteq> None"
    unfolding ds_def using that keys by (intro datesDescending_sortedDates) auto
  note dds' = dds[unfolded ds_def]
  note sds' = sds[unfolded ds_def key_def]
  note desc' = desc[unfolded ds_def key_def]
  note rows' = rows_def[unfolded ds_def key_def]
  from g dds' sds' desc' e rows' m l show ?thesis
    by blast
qed


theorem grouping_keeps_every_record_witness:
  "JNull \<notin> set sampleCandidates
   \<and> list_all (\<lambda>e. propertyKey objectText (dateOf e) \<notin> set objectPrototypeNames) sampleCandidates
   \<and> list_all (\<lambda>e. isoGetTime (JStr (propertyKey objectText (dateOf e))) \<noteq> None) sampleCandidates
   \<and> (\<exists>groups rows. groupedExpenses objectText sampleCandidates = Inr groups
         \<and> datesDescending isoGetTime (sortedDates isoGetTime groups)
         \<and> expenseList objectText isoGetTime sampleCandidates = Inr rows
         \<and> length rows = 5)
   \<and> expenseList objectText isoGetTime sampleCandidates =
        Inr (map expenseJson
               [sampleExpense ''9'' ''2024-02-01'' 8 A,
                sampleExpense ''1'' ''2024-01-10'' 100 A,
                sampleExpense ''8'' ''2024-01-10'' 30 B,
                sampleExpense ''2'' ''2024-01-10'' 50 B,
                sampleExpense ''7'' ''2024-01-09'' 12 A])"
proof -
  have n: "JNull \<notin> set sampleCandidates"
    by (simp add: sample_defs)
  have k: "list_all (\<lambda>e. propertyKey objectText (dateOf e) \<notin> set objectPrototypeNames) sampleCandidates"
    by (simp add: sample_defs dateOf_def objectPrototypeNames_def)
  have v: "list_all (\<lambda>e. isoGetTime (JStr (propertyKey objectText (dateOf e))) \<noteq> None) sampleCandidates"
    by (simp add: sample_defs eval_defs)
  have l: "length sampleCandidates = 5"
    by (simp add: sample_defs)
  from grouping_keeps_every_record[where xs = sampleCandidates and toStr = objectText
      and getTime = isoGetTime, OF n k[unfolded list_all_iff]] v[unfolded list_all_iff] l
  have t: "\<exists>groups rows. groupedExpenses objectText sampleCandidates = Inr groups
         \<and> datesDescending isoGetTime (sortedDates isoGetTime groups)
         \<and> expenseList objectText isoGetTime sampleCandidates = Inr rows
         \<and> length rows = 5"
    by (metis (no_types, lifting))
  have r: "expenseList objectText isoGetTime sampleCandidates =
        Inr (map expenseJson
               [sampleExpense ''9'' ''2024-02-01'' 8 A,
                sampleExpense ''1'' ''2024-01-10'' 100 A,
                sampleExpense ''8'' ''2024-01-10'' 30 B,
                sampleExpense ''2'' ''2024-01-10'' 50 B,
                sampleExpense ''7'' ''2024-01-09'' 12 A])"
    by (simp add: expenseList_def groupedExpenses_def renderedRows_def sortedDates_def
        objectKeys_def List.map_filter_def arrayIndex_def objectPrototypeNames_def
        arraySort_def comesAfter_def subtractTimes_def
        sample_defs dateOf_def digitValue_def epochDay_def daysInMonth_def isLeapYear_def)
  from n k v t r show ?thesis by blast
qed

section \<open>Monthly summary\<close>

lemma foldl_conditional_sum:
  "foldl (\<lambda>total e. if P e then total + f e else total) (z::rat) es
     = z + sum_list (map f (filter P es))"
  by (induction es arbitrary: z) simp_all

lemma partyTotal_sum:
  "partyTotal referenceMonth party es =
     sum_list (map amount
       (filter (\<lambda>e. payer e = party \<and> calendarMonth (date e) = Some referenceMonth) es))"
  by (simp add: partyTotal_def inReferenceMonth_def foldl_conditional_sum)

text \<open>
  Claim C2. The aggregator's total for a party is the sum of the amounts of exactly the
  expenses paid by that party whose date lies in the reference month, whatever the day;
  the balance is half of the first total minus the second; and on the empty collection
  all three are zero. The aggregator is a total function: it yields a summary for every
  collection, month and pair of parties.
\<close>

theorem balance_is_half_the_difference:
  "totalA (balanceAggregator es referenceMonth partyA partyB) =
     sum_list (map amount
       (filter (\<lambda>e. payer e = partyA \<and> calendarMonth (date e) = Some referenceMonth) es))
   \<and> totalB (balanceAggregator es referenceMonth partyA partyB) =
     sum_list (map amount
       (filter (\<lambda>e. payer e = partyB \<and> calendarMonth (date e) = Some referenceMonth) es))
   \<and> balance (balanceAggregator es referenceMonth partyA partyB) =
       (totalA (balanceAggregator es referenceMonth partyA partyB)
         - totalB (balanceAggregator es referenceMonth partyA partyB)) / 2
   \<and> balanceAggregator [] referenceMonth partyA partyB
       = \<lparr>totalA = 0, totalB = 0, balance = 0\<rparr>"
  by (simp add: balanceAggregator_def Let_def partyTotal_sum)

text \<open>
  The scenario of the specification, with an expense of 2023-12-31 added: for January
  2024 the totals are 100 and 50 and the balance is 25; the expense of the day before
  the month is not counted.
\<close>

theorem balance_is_half_the_difference_witness:
  "totalA (balanceAggregator sampleRecordsWithDecember (2024, 1) A B) = 100
   \<and> totalB (balanceAggregator sampleRecordsWithDecember (2024, 1) A B) = 50
   \<and> balance (balanceAggregator sampleRecordsWithDecember (2024, 1) A B) = 25"
proof -
  note t = balance_is_half_the_difference[of sampleRecordsWithDecember "(2024, 1)" A B]
  have a: "sum_list (map amount
       (filter (\<lambda>e. payer e = A \<and> calendarMonth (date e) = Some (2024, 1))
          sampleRecordsWithDecember)) = 100"
    by (simp add: sampleRecordsWithDecember_def sampleRecords_def sampleExpense_def
        calendarMonth_def digitValue_def daysInMonth_def isLeapYear_def)
  have b: "sum_list (map amount
       (filter (\<lambda>e. payer e = B \<and> calendarMonth (date e) = Some (2024, 1))
          sampleRecordsWithDecember)) = 50"
    by (simp add: sampleRecordsWithDecember_def sampleRecords_def sampleExpense_def
        calendarMonth_def digitValue_def daysInMonth_def isLeapYear_def)
  from t a b show ?thesis by simp
qed

section \<open>Closing the draft surface\<close>

text \<open>
  Claim C8. Closing the draft surface leaves the collection as it was and closes the
  modal, but the draft cell keeps its value: after a manual add and a close it still
  holds the draft. The save path, in contrast, resets the cell to \<^verbatim>\<open>null\<close>.
\<close>

theorem close_keeps_the_draft:
  "draftExpense (onClose st) = draftExpense st
   \<and> expenses (onClose st) = expenses st
   \<and> isModalOpen (onClose st) = False
   \<and> draftExpense (onClose (handleManualAdd today other st))
       = Some \<lparr>date = today, item = [], amount = 0, category = other\<rparr>
   \<and> map_sum id draftExpense
        (handleSaveExpense getTime nowId nowCreated (handleManualAdd today other (stateWith []))
           finalData) = Inr None"
  by (simp add: onClose_def handleManualAdd_def handleSaveExpense_def stateWith_def Let_def)

section \<open>Receipt analysis that fails\<close>

text \<open>
  Claim C9. When the read starts normally and \<^verbatim>\<open>analyzeReceipt\<close> rejects, the state
  after the scan is the state before it with the busy flag set: the flag is not
  cleared, no message is shown, and no draft is created. The \<^verbatim>\<open>catch\<close> of line 65
  clears the flag and shows the message only when the synchronous part throws.
\<close>

theorem rejected_analysis_stays_busy:
  "scanReceipt st f Rejected = st\<lparr>isAnalyzing := True\<rparr>
   \<and> isAnalyzing (scanReceipt st f Rejected) = True
   \<and> alerts (scanReceipt st f Rejected) = alerts st
   \<and> draftExpense (scanReceipt st f Rejected) = draftExpense st
   \<and> isModalOpen (scanReceipt st f Rejected) = isModalOpen st
   \<and> handleFileChange st (Some f) True
       = st\<lparr>isAnalyzing := False, alerts := alerts st @ [processFailedMessage]\<rparr>"
  by (simp add: scanReceipt_def onloadend_def handleFileChange_def alert_def Let_def)

end
